theory Spec2Isabelle
  imports Complex_Main
begin

section \<open>Python values shared by the three modules\<close>

text \<open>
  A Python float is modelled as the \<^typ>\<open>real\<close> it denotes (no NaN, no infinity), a
  \<^verbatim>\<open>datetime\<close> as the number of microseconds since the epoch, a \<^verbatim>\<open>date\<close> as its day number,
  and a \<^verbatim>\<open>dict\<close> with string keys and numeric values as an association list in insertion
  order. The risk manager's arithmetic is taken over the reals; the volume arithmetic of a
  partial close, whose result is compared with the float \<^verbatim>\<open>0.01\<close>, is rounded as the
  interpreter rounds it.
\<close>

text \<open>
  Rounding to the nearest binary64 number, ties to even: 53 significant bits, the exponent of
  the leading bit between -1022 and 1023 (below that the spacing stays \<open>2 ^ -1074\<close>). A result
  beyond the largest double is not turned into an infinity.
\<close>

definition round_half_even :: "real \<Rightarrow> int" where
  "round_half_even x =
     (let f = \<lfloor>x\<rfloor>; d = x - of_int f
      in if d < 1 / 2 then f else if d > 1 / 2 then f + 1 else if even f then f else f + 1)"

text \<open>The exponent \<open>e\<close> with \<open>2 ^ e \<le> a < 2 ^ (e + 1)\<close> of a positive \<open>a\<close>, searched from \<open>e = 0\<close>
  and kept within the exponent range.\<close>

function find_exp :: "real \<Rightarrow> int \<Rightarrow> int" where
  "find_exp a e =
     (if a \<ge> 2 \<and> e < 1023 then find_exp (a / 2) (e + 1)
      else if a < 1 \<and> e > - 1022 then find_exp (a * 2) (e - 1)
      else e)"
  by pat_completeness auto
termination
  by (relation "measure (\<lambda>(a, e). if a \<ge> 2 then nat (1023 - e)
                                  else if a < 1 then nat (e + 1022) else 0)")
     auto

declare find_exp.simps [simp del]

definition pow2 :: "int \<Rightarrow> real" where
  "pow2 k = (if k \<ge> 0 then 2 ^ nat k else 1 / 2 ^ nat (- k))"

definition double_round :: "real \<Rightarrow> real" where
  "double_round x =
     (if x = 0 then 0
      else (let a = \<bar>x\<bar>; ulp = pow2 (find_exp a 0 - 52)
            in sgn x * (real_of_int (round_half_even (a / ulp)) * ulp)))"

text \<open>Float multiplication and subtraction, and the float that the literal \<^verbatim>\<open>0.01\<close> denotes.\<close>

definition float_mul :: "real \<Rightarrow> real \<Rightarrow> real" where
  "float_mul x y = double_round (x * y)"

definition float_sub :: "real \<Rightarrow> real \<Rightarrow> real" where
  "float_sub x y = double_round (x - y)"

definition float_0_01 :: real where
  "float_0_01 = double_round (1 / 100)"

type_synonym datetime = int
type_synonym date = int
type_synonym pydict = "(string \<times> real) list"

text \<open>\<^verbatim>\<open>d.get(k, default)\<close>\<close>

definition dict_get :: "pydict \<Rightarrow> string \<Rightarrow> real \<Rightarrow> real" where
  "dict_get d k dflt = (case map_of d k of None \<Rightarrow> dflt | Some v \<Rightarrow> v)"

text \<open>Truth value of a broker answer that is a dict or \<^verbatim>\<open>None\<close>: \<^verbatim>\<open>None\<close> and \<^verbatim>\<open>{}\<close> are falsy.\<close>

definition truthy :: "pydict option \<Rightarrow> bool" where
  "truthy r = (case r of None \<Rightarrow> False | Some d \<Rightarrow> d \<noteq> [])"

text \<open>The dict of a broker answer already tested for truth (\<^verbatim>\<open>None\<close> has no entries).\<close>

definition the_dict :: "pydict option \<Rightarrow> pydict" where
  "the_dict r = (case r of None \<Rightarrow> [] | Some d \<Rightarrow> d)"

text \<open>\<^verbatim>\<open>timedelta.total_seconds()\<close> of a difference of two datetimes.\<close>

definition total_seconds :: "int \<Rightarrow> real" where
  "total_seconds td = real_of_int td / 1000000"

text \<open>
  The broker is an external collaborator (\<^verbatim>\<open>self.broker\<close>). Its answers may change from one
  call to the next, so every method takes the broker's state and returns the next one.
  The two methods called inside a \<^verbatim>\<open>try\<close> block may also raise.
\<close>

datatype 'a call = Raises | Returns 'a

record 'b Broker =
  get_account_info :: "'b \<Rightarrow> pydict option \<times> 'b"
  get_symbol_info :: "'b \<Rightarrow> string \<Rightarrow> pydict option \<times> 'b"
  get_current_price :: "'b \<Rightarrow> string \<Rightarrow> pydict option \<times> 'b"
  get_mid_price :: "'b \<Rightarrow> string \<Rightarrow> real option call \<times> 'b"
  close_order_partial :: "'b \<Rightarrow> int \<Rightarrow> real \<Rightarrow> bool call \<times> 'b"

datatype SessionType = ASIAN | LONDON | NEW_YORK | OVERLAP

datatype OrderType = BUY | SELL | BUY_LIMIT | SELL_LIMIT | BUY_STOP | SELL_STOP


section \<open>session\_manager.py\<close>

text \<open>A \<^verbatim>\<open>datetime.time\<close> without tzinfo. Python orders two of them as the tuples
  \<^verbatim>\<open>(hour, minute, second, microsecond)\<close>.\<close>

record pytime =
  hour :: nat
  minute :: nat
  second :: nat
  microsecond :: nat

fun tuple_lt :: "nat \<times> nat \<times> nat \<times> nat \<Rightarrow> nat \<times> nat \<times> nat \<times> nat \<Rightarrow> bool" where
  "tuple_lt (a1, a2, a3, a4) (b1, b2, b3, b4) =
     (a1 < b1 \<or> (a1 = b1 \<and> (a2 < b2 \<or> (a2 = b2 \<and> (a3 < b3 \<or> (a3 = b3 \<and> a4 < b4))))))"

definition time_tuple :: "pytime \<Rightarrow> nat \<times> nat \<times> nat \<times> nat" where
  "time_tuple t = (hour t, minute t, second t, microsecond t)"

definition time_cmp :: "pytime \<Rightarrow> pytime \<Rightarrow> int" where
  "time_cmp a b =
     (if time_tuple a = time_tuple b then 0
      else if tuple_lt (time_tuple b) (time_tuple a) then 1 else - 1)"

definition time_gt :: "pytime \<Rightarrow> pytime \<Rightarrow> bool" where
  "time_gt a b = (time_cmp a b > 0)"

definition time_ge :: "pytime \<Rightarrow> pytime \<Rightarrow> bool" where
  "time_ge a b = (time_cmp a b \<ge> 0)"

definition time_le :: "pytime \<Rightarrow> pytime \<Rightarrow> bool" where
  "time_le a b = (time_cmp a b \<le> 0)"

text \<open>
  \<^verbatim>\<open>MarketSession\<close>. The field \<open>timezone\<close> stands for
  \<^verbatim>\<open>lambda dt: dt.astimezone(self.timezone).time()\<close>: the wall-clock time of day of an instant
  in the session's zone.
\<close>

record MarketSession =
  timezone :: "datetime \<Rightarrow> pytime"
  is_active :: bool
  start_time :: pytime
  end_time :: pytime

text \<open>\<^verbatim>\<open>MarketSession.is_session_active\<close>; \<open>now\<close> is the reading of
  \<^verbatim>\<open>datetime.now(self.timezone)\<close>, used when no time is supplied.\<close>

definition is_session_active :: "MarketSession \<Rightarrow> datetime \<Rightarrow> datetime option \<Rightarrow> bool" where
  "is_session_active self now current_time =
     (let ct = (case current_time of None \<Rightarrow> now | Some t \<Rightarrow> t);
          current_time_local = timezone self ct
      in if time_gt (start_time self) (end_time self)
         then time_ge current_time_local (start_time self) \<or> time_le current_time_local (end_time self)
         else time_le (start_time self) current_time_local \<and> time_le current_time_local (end_time self))"

text \<open>The values every \<^verbatim>\<open>datetime.time\<close> object has, and its offset from midnight.\<close>

definition valid_time :: "pytime \<Rightarrow> bool" where
  "valid_time t = (hour t < 24 \<and> minute t < 60 \<and> second t < 60 \<and> microsecond t < 1000000)"

definition micros_of_day :: "pytime \<Rightarrow> nat" where
  "micros_of_day t = ((hour t * 60 + minute t) * 60 + second t) * 1000000 + microsecond t"


section \<open>risk\_manager.py\<close>

record Position =
  ticket :: int
  symbol :: string
  order_type :: OrderType
  volume :: real
  price :: real
  sl :: "real option"
  tp :: "real option"
  open_time :: datetime
  current_price :: real
  unrealized_pnl :: real
  realized_pnl :: real

record RiskConfig =
  max_position_size :: real
  max_daily_loss :: real
  max_open_positions :: int
  stop_loss_pips :: real
  take_profit_pips :: real
  trailing_stop :: bool
  trailing_stop_pips :: real

text \<open>\<^verbatim>\<open>RiskManager\<close>; \<open>positions\<close> is the dict from ticket to position, in insertion order.\<close>

record RiskManager =
  config :: RiskConfig
  positions :: "(int \<times> Position) list"
  daily_pnl :: real
  daily_trades :: int
  max_daily_loss_reached :: bool
  last_reset_date :: date
  total_trades :: int
  winning_trades :: int
  losing_trades :: int
  max_drawdown :: real
  current_drawdown :: real
  peak_balance :: real

text \<open>\<^verbatim>\<open>Position.update_price\<close>\<close>

definition update_price :: "Position \<Rightarrow> real \<Rightarrow> Position" where
  "update_price self cp =
     (if Position.order_type self = BUY
      then self\<lparr>current_price := cp, unrealized_pnl := (cp - price self) * Position.volume self\<rparr>
      else self\<lparr>current_price := cp, unrealized_pnl := (price self - cp) * Position.volume self\<rparr>)"

text \<open>\<^verbatim>\<open>RiskManager.reset_daily_metrics\<close>; \<open>current_date\<close> is the reading of
  \<^verbatim>\<open>datetime.now().date()\<close>.\<close>

definition reset_daily_metrics :: "date \<Rightarrow> RiskManager \<Rightarrow> RiskManager" where
  "reset_daily_metrics current_date self =
     (if current_date > last_reset_date self
      then self\<lparr>daily_pnl := 0, daily_trades := 0, max_daily_loss_reached := False,
                 last_reset_date := current_date\<rparr>
      else self)"

text \<open>The reason string of \<^verbatim>\<open>can_open_position\<close>. The one formatted message carries the number
  it prints.\<close>

datatype reason = Reason string | Position_size_exceeds_maximum real

text \<open>\<^verbatim>\<open>RiskManager.can_open_position\<close>\<close>

definition can_open_position ::
  "'b Broker \<Rightarrow> date \<Rightarrow> string \<Rightarrow> real \<Rightarrow> real \<Rightarrow> RiskManager \<times> 'b
     \<Rightarrow> (bool \<times> reason) \<times> RiskManager \<times> 'b" where
  "can_open_position broker current_date symbol_arg volume_arg stop_loss_pips_arg st =
     (let self = reset_daily_metrics current_date (fst st); b = snd st in
      if max_daily_loss_reached self
      then ((False, Reason ''Daily loss limit reached''), self, b)
      else if int (length (positions self)) \<ge> max_open_positions (config self)
      then ((False, Reason ''Maximum open positions reached''), self, b)
      else
        let (account_info, b1) = get_account_info broker b in
        if \<not> truthy account_info
        then ((False, Reason ''Unable to get account information''), self, b1)
        else
          let balance = dict_get (the_dict account_info) ''balance'' 0;
              max_position_value = balance * max_position_size (config self);
              (symbol_info, b2) = get_symbol_info broker b1 symbol_arg in
          if \<not> truthy symbol_info
          then ((False, Reason ''Unable to get symbol information''), self, b2)
          else
            let position_value = volume_arg * dict_get (the_dict symbol_info) ''ask'' 0 in
            if position_value > max_position_value
            then ((False, Position_size_exceeds_maximum max_position_value), self, b2)
            else if \<bar>daily_pnl self\<bar> \<ge> balance * max_daily_loss (config self)
            then ((False, Reason ''Daily loss limit would be exceeded''),
                  self\<lparr>max_daily_loss_reached := True\<rparr>, b2)
            else ((True, Reason ''Position can be opened''), self, b2))"

text \<open>Successive calls of \<^verbatim>\<open>can_open_position\<close>, each with the date read at that call and its
  own arguments; the list of the answers.\<close>

fun can_open_calls ::
  "'b Broker \<Rightarrow> (date \<times> string \<times> real \<times> real) list \<Rightarrow> RiskManager \<times> 'b \<Rightarrow> (bool \<times> reason) list" where
  "can_open_calls broker [] st = []"
| "can_open_calls broker ((d, smb, vol, slp) # cs) st =
     (let (r, st') = can_open_position broker d smb vol slp st
      in r # can_open_calls broker cs st')"

text \<open>\<^verbatim>\<open>RiskManager.update_positions\<close>: the loop over \<^verbatim>\<open>self.positions.items()\<close>.\<close>

fun update_positions_loop ::
  "'b Broker \<Rightarrow> (int \<times> Position) list \<Rightarrow> 'b \<Rightarrow> (int \<times> Position) list \<times> 'b" where
  "update_positions_loop broker [] b = ([], b)"
| "update_positions_loop broker ((t, position) # rest) b =
     (let (cp, b1) = get_current_price broker b (Position.symbol position);
          position' =
            (if truthy cp
             then update_price position
                    (if Position.order_type position = BUY
                     then dict_get (the_dict cp) ''bid'' (current_price position)
                     else dict_get (the_dict cp) ''ask'' (current_price position))
             else position);
          (rest', b2) = update_positions_loop broker rest b1
      in ((t, position') # rest', b2))"

definition update_positions :: "'b Broker \<Rightarrow> RiskManager \<times> 'b \<Rightarrow> RiskManager \<times> 'b" where
  "update_positions broker st =
     (let (ps, b') = update_positions_loop broker (positions (fst st)) (snd st)
      in ((fst st)\<lparr>positions := ps\<rparr>, b'))"

text \<open>\<^verbatim>\<open>RiskManager.apply_trailing_stop\<close>: the body of the loop for one position, with whether
  the ticket is appended to \<^verbatim>\<open>tickets_to_modify\<close>.\<close>

definition trail_position :: "RiskConfig \<Rightarrow> Position \<Rightarrow> Position \<times> bool" where
  "trail_position cfg position =
     (case sl position of
        None \<Rightarrow> (position, False)
      | Some s \<Rightarrow>
          if Position.order_type position = BUY
          then (let new_sl = current_price position - trailing_stop_pips cfg * (1 / 10000)
                in if new_sl > s then (position\<lparr>sl := Some new_sl\<rparr>, True) else (position, False))
          else (let new_sl = current_price position + trailing_stop_pips cfg * (1 / 10000)
                in if new_sl < s then (position\<lparr>sl := Some new_sl\<rparr>, True) else (position, False)))"

fun trailing_loop :: "RiskConfig \<Rightarrow> (int \<times> Position) list \<Rightarrow> int list \<times> (int \<times> Position) list" where
  "trailing_loop cfg [] = ([], [])"
| "trailing_loop cfg ((t, position) # rest) =
     (let (position', modified) = trail_position cfg position;
          (tickets, rest') = trailing_loop cfg rest
      in ((if modified then [t] else []) @ tickets, (t, position') # rest'))"

definition apply_trailing_stop :: "RiskManager \<Rightarrow> int list \<times> RiskManager" where
  "apply_trailing_stop self =
     (if \<not> trailing_stop (config self) then ([], self)
      else (let (tickets_to_modify, ps) = trailing_loop (config self) (positions self)
            in (tickets_to_modify, self\<lparr>positions := ps\<rparr>)))"

text \<open>
  A run of \<open>n\<close> risk cycles: prices are refreshed from the broker, then the trailing stop is
  applied. The result lists, cycle by cycle, the tickets returned by
  \<^verbatim>\<open>apply_trailing_stop\<close> and the manager after the call.
\<close>

fun trailing_cycles :: "'b Broker \<Rightarrow> nat \<Rightarrow> RiskManager \<times> 'b \<Rightarrow> (int list \<times> RiskManager) list" where
  "trailing_cycles broker 0 st = []"
| "trailing_cycles broker (Suc n) st =
     (let (rm1, b1) = update_positions broker st;
          (tickets, rm2) = apply_trailing_stop rm1
      in (tickets, rm2) # trailing_cycles broker n (rm2, b1))"

text \<open>The stop of ticket \<open>t\<close> in a manager, if it has one.\<close>

definition stop_of :: "RiskManager \<Rightarrow> int \<Rightarrow> real list" where
  "stop_of rm t =
     (case map_of (positions rm) t of
        None \<Rightarrow> []
      | Some p \<Rightarrow> (case sl p of None \<Rightarrow> [] | Some s \<Rightarrow> [s]))"

text \<open>The stops of ticket \<open>t\<close> accepted during a run: its stop after each call that returned
  the ticket.\<close>

definition accepted_stops :: "int \<Rightarrow> (int list \<times> RiskManager) list \<Rightarrow> real list" where
  "accepted_stops t run =
     concat (map (\<lambda>(tickets, rm). if t \<in> set tickets then stop_of rm t else []) run)"


section \<open>profit\_monitor.py\<close>

record ProfitTakingRule =
  name :: string
  enabled :: bool
  time_interval_minutes :: int
  min_profit_pips :: real
  profit_percentage :: real
  max_trades_per_interval :: int
  session_filter :: "SessionType option"
  symbol_filter :: "string option"
  last_execution :: "datetime option"

record ActivePosition =
  ticket :: int
  symbol :: string
  order_type :: string
  volume :: real
  open_price :: real
  open_time :: datetime
  current_profit :: real
  current_profit_pips :: real
  session :: SessionType
  strategy :: string

text \<open>
  \<^verbatim>\<open>ProfitMonitor\<close>, the part used for profit taking. \<open>active_positions\<close> is the dict from
  ticket to position, in insertion order; \<^verbatim>\<open>add_active_position\<close> files every position under
  its own ticket, so an entry is identified by the ticket of its position.
\<close>

record ProfitMonitor =
  profit_taking_rules :: "ProfitTakingRule list"
  active_positions :: "(int \<times> ActivePosition) list"

text \<open>\<^verbatim>\<open>ProfitMonitor.add_profit_taking_rule\<close>\<close>

definition add_profit_taking_rule :: "ProfitTakingRule \<Rightarrow> ProfitMonitor \<Rightarrow> ProfitMonitor" where
  "add_profit_taking_rule rule self =
     self\<lparr>profit_taking_rules := profit_taking_rules self @ [rule]\<rparr>"

text \<open>\<^verbatim>\<open>ProfitMonitor.remove_active_position\<close>, on the dict.\<close>

definition remove_active_position ::
  "int \<Rightarrow> (int \<times> ActivePosition) list \<Rightarrow> (int \<times> ActivePosition) list" where
  "remove_active_position t ps = filter (\<lambda>kv. fst kv \<noteq> t) ps"

text \<open>\<^verbatim>\<open>ProfitMonitor._get_matching_positions\<close>. A session filter is a non-empty string enum
  member, so it is falsy only when \<^verbatim>\<open>None\<close>; a symbol filter is falsy when \<^verbatim>\<open>None\<close> or empty.\<close>

definition matches :: "ProfitTakingRule \<Rightarrow> ActivePosition \<Rightarrow> bool" where
  "matches rule position =
     (if session_filter rule \<noteq> None \<and> Some (session position) \<noteq> session_filter rule then False
      else if symbol_filter rule \<noteq> None \<and> symbol_filter rule \<noteq> Some []
              \<and> Some (symbol position) \<noteq> symbol_filter rule then False
      else current_profit_pips position > 0)"

definition get_matching_positions ::
  "ProfitTakingRule \<Rightarrow> (int \<times> ActivePosition) list \<Rightarrow> ActivePosition list" where
  "get_matching_positions rule ps = filter (matches rule) (map snd ps)"

text \<open>\<^verbatim>\<open>matching_positions.sort(key=lambda p: p.current_profit_pips, reverse=True)\<close>:
  Python's sort is stable, also with \<^verbatim>\<open>reverse=True\<close>.\<close>

definition sort_by_profit :: "ActivePosition list \<Rightarrow> ActivePosition list" where
  "sort_by_profit xs = sort_key (\<lambda>p. - current_profit_pips p) xs"

text \<open>
  \<^verbatim>\<open>ProfitMonitor._execute_profit_taking\<close>. The position object is the one filed in the dict
  under its ticket; its volume is reduced there. Any exception is caught and gives \<^verbatim>\<open>False\<close>.
  The product, the difference and the literal \<^verbatim>\<open>0.01\<close> are floats.
\<close>

definition execute_profit_taking ::
  "'b Broker \<Rightarrow> ActivePosition \<Rightarrow> ProfitTakingRule \<Rightarrow> (int \<times> ActivePosition) list \<times> 'b
     \<Rightarrow> bool \<times> (int \<times> ActivePosition) list \<times> 'b" where
  "execute_profit_taking broker position rule st =
     (let ps = fst st; b = snd st;
          close_volume = float_mul (volume position) (profit_percentage rule);
          (cur, b1) = get_mid_price broker b (symbol position)
      in case cur of
           Raises \<Rightarrow> (False, ps, b1)
         | Returns None \<Rightarrow> (False, ps, b1)
         | Returns (Some cp) \<Rightarrow>
             if cp = 0 then (False, ps, b1)
             else
               (let (closed, b2) = close_order_partial broker b1 (ticket position) close_volume
                in case closed of
                     Raises \<Rightarrow> (False, ps, b2)
                   | Returns False \<Rightarrow> (False, ps, b2)
                   | Returns True \<Rightarrow>
                       (let position' = position\<lparr>volume := float_sub (volume position) close_volume\<rparr>;
                            ps' = map (\<lambda>kv. if fst kv = ticket position
                                             then (fst kv, position') else kv) ps
                        in if volume position' \<le> float_0_01
                           then (True, remove_active_position (ticket position) ps', b2)
                           else (True, ps', b2))))"

text \<open>The inner loop of \<^verbatim>\<open>check_profit_taking\<close> over the sorted candidates: the tickets closed,
  the final \<^verbatim>\<open>closed_count\<close>, the dict and the broker.\<close>

fun take_loop ::
  "'b Broker \<Rightarrow> ProfitTakingRule \<Rightarrow> ActivePosition list \<Rightarrow> int
     \<Rightarrow> (int \<times> ActivePosition) list \<times> 'b
     \<Rightarrow> int list \<times> int \<times> (int \<times> ActivePosition) list \<times> 'b" where
  "take_loop broker rule [] closed_count st = ([], closed_count, st)"
| "take_loop broker rule (position # rest) closed_count st =
     (if closed_count \<ge> max_trades_per_interval rule then ([], closed_count, st)
      else if current_profit_pips position \<ge> min_profit_pips rule
      then (let (ok, st') = execute_profit_taking broker position rule st
            in if ok
               then (let (tickets, res) = take_loop broker rule rest (closed_count + 1) st'
                     in (ticket position # tickets, res))
               else take_loop broker rule rest closed_count st')
      else take_loop broker rule rest closed_count st)"

text \<open>The interval test of \<^verbatim>\<open>check_profit_taking\<close>: a datetime is always truthy, so the rule is
  held back only when it has fired and less than its interval has passed.\<close>

definition interval_elapsed :: "datetime \<Rightarrow> ProfitTakingRule \<Rightarrow> bool" where
  "interval_elapsed current_time rule =
     (case last_execution rule of
        None \<Rightarrow> True
      | Some l \<Rightarrow> \<not> total_seconds (current_time - l) < real_of_int (time_interval_minutes rule * 60))"

text \<open>The body of the loop over the rules, for one rule: the rule afterwards, the tickets it
  closed, the dict and the broker.\<close>

definition check_rule ::
  "'b Broker \<Rightarrow> datetime \<Rightarrow> ProfitTakingRule \<Rightarrow> (int \<times> ActivePosition) list \<times> 'b
     \<Rightarrow> ProfitTakingRule \<times> int list \<times> (int \<times> ActivePosition) list \<times> 'b" where
  "check_rule broker current_time rule st =
     (if \<not> enabled rule then (rule, [], st)
      else if \<not> interval_elapsed current_time rule then (rule, [], st)
      else
        (let matching_positions = get_matching_positions rule (fst st)
         in if matching_positions = [] then (rule, [], st)
            else
              (let (tickets, closed_count, st') =
                     take_loop broker rule (sort_by_profit matching_positions) 0 st
               in if closed_count > 0
                  then (rule\<lparr>last_execution := Some current_time\<rparr>, tickets, st')
                  else (rule, tickets, st'))))"

fun check_rules ::
  "'b Broker \<Rightarrow> datetime \<Rightarrow> ProfitTakingRule list \<Rightarrow> (int \<times> ActivePosition) list \<times> 'b
     \<Rightarrow> ProfitTakingRule list \<times> int list \<times> (int \<times> ActivePosition) list \<times> 'b" where
  "check_rules broker current_time [] st = ([], [], st)"
| "check_rules broker current_time (rule # rules) st =
     (let (rule', tickets, st1) = check_rule broker current_time rule st;
          (rules', closed_tickets, st2) = check_rules broker current_time rules st1
      in (rule' # rules', tickets @ closed_tickets, st2))"

text \<open>\<^verbatim>\<open>ProfitMonitor.check_profit_taking\<close>; \<open>broker\<close> is \<^verbatim>\<open>self.broker\<close> (\<^verbatim>\<open>None\<close> until
  \<^verbatim>\<open>set_broker\<close>) and \<open>now\<close> the reading of \<^verbatim>\<open>datetime.now()\<close>.\<close>

definition check_profit_taking ::
  "'b Broker option \<Rightarrow> datetime \<Rightarrow> datetime option \<Rightarrow> ProfitMonitor \<times> 'b
     \<Rightarrow> int list \<times> ProfitMonitor \<times> 'b" where
  "check_profit_taking broker now current_time st =
     (case broker of
        None \<Rightarrow> ([], st)
      | Some br \<Rightarrow>
          if active_positions (fst st) = [] then ([], st)
          else
            (let ct = (case current_time of None \<Rightarrow> now | Some t \<Rightarrow> t);
                 (rules', closed_tickets, ps', b') =
                    check_rules br ct (profit_taking_rules (fst st)) (active_positions (fst st), snd st)
             in (closed_tickets,
                 (fst st)\<lparr>profit_taking_rules := rules', active_positions := ps'\<rparr>, b')))"

text \<open>
  The life of one rule over a list of ticks. At each tick the rule meets the position book
  and the broker as they are then, at the time given; the result lists the times of the
  ticks at which the rule closed at least one position.
\<close>

fun rule_firings ::
  "'b Broker \<Rightarrow> ProfitTakingRule \<Rightarrow> (datetime \<times> (int \<times> ActivePosition) list \<times> 'b) list
     \<Rightarrow> datetime list" where
  "rule_firings broker rule [] = []"
| "rule_firings broker rule ((t, st) # ticks) =
     (let (rule', tickets, st') = check_rule broker t rule st
      in (if tickets \<noteq> [] then [t] else []) @ rule_firings broker rule' ticks)"


section \<open>Example states\<close>

text \<open>A session from 22:00 to 06:00, in a zone where instant 0 is 23:30:15 and every other
  instant 10:00.\<close>

definition night_session :: MarketSession where
  "night_session =
     \<lparr>timezone = (\<lambda>t. if t = 0 then \<lparr>hour = 23, minute = 30, second = 15, microsecond = 0\<rparr>
                       else \<lparr>hour = 10, minute = 0, second = 0, microsecond = 0\<rparr>),
      is_active = False,
      start_time = \<lparr>hour = 22, minute = 0, second = 0, microsecond = 0\<rparr>,
      end_time = \<lparr>hour = 6, minute = 0, second = 0, microsecond = 0\<rparr>\<rparr>"


text \<open>A risk configuration with a trailing stop of 20 pips, and a book with a long position
  with a stop, a long position without one, and a short position with a stop.\<close>

definition demo_config :: RiskConfig where
  "demo_config =
     \<lparr>max_position_size = 2 / 100, max_daily_loss = 5 / 100, max_open_positions = 3,
      stop_loss_pips = 50, take_profit_pips = 100, trailing_stop = True, trailing_stop_pips = 20\<rparr>"

definition demo_long :: Position where
  "demo_long =
     \<lparr>Position.ticket = 1, symbol = ''EURUSD'', order_type = BUY, volume = 1 / 10, price = 11 / 10,
      sl = Some (1095 / 1000), tp = None, open_time = 0, current_price = 11 / 10,
      unrealized_pnl = 0, realized_pnl = 0\<rparr>"

definition demo_unset :: Position where
  "demo_unset =
     \<lparr>Position.ticket = 2, symbol = ''GBPUSD'', order_type = BUY, volume = 1 / 10, price = 13 / 10,
      sl = None, tp = None, open_time = 0, current_price = 13 / 10,
      unrealized_pnl = 0, realized_pnl = 0\<rparr>"

definition demo_short :: Position where
  "demo_short =
     \<lparr>Position.ticket = 3, symbol = ''USDCHF'', order_type = SELL, volume = 1 / 10, price = 9 / 10,
      sl = Some (905 / 1000), tp = None, open_time = 0, current_price = 9 / 10,
      unrealized_pnl = 0, realized_pnl = 0\<rparr>"

definition demo_manager :: RiskManager where
  "demo_manager =
     \<lparr>config = demo_config, positions = [(1, demo_long), (2, demo_unset), (3, demo_short)],
      daily_pnl = 0, daily_trades = 3, max_daily_loss_reached = False, last_reset_date = 100,
      total_trades = 3, winning_trades = 0, losing_trades = 0, max_drawdown = 0,
      current_drawdown = 0, peak_balance = 0\<rparr>"

text \<open>A broker with a balance of 10000 whose state counts the price requests: EURUSD and GBPUSD
  rise by ten pips at every request, the other symbols stand at 0.9.\<close>

definition demo_broker :: "int Broker" where
  "demo_broker =
     \<lparr>get_account_info = (\<lambda>b. (Some [(''balance'', 10000)], b)),
      get_symbol_info = (\<lambda>b s. (Some [(''ask'', 11 / 10), (''volume_min'', 1 / 10)], b)),
      get_current_price = (\<lambda>b s.
         (if s = ''USDCHF'' then Some [(''bid'', 9 / 10), (''ask'', 9 / 10)]
          else Some [(''bid'', 11 / 10 + real_of_int b / 1000), (''ask'', 11 / 10 + real_of_int b / 1000)],
          b + 1)),
      get_mid_price = (\<lambda>b s. (Returns (Some (11 / 10)), b)),
      close_order_partial = (\<lambda>b t v. (Returns True, b))\<rparr>"

text \<open>
  The guards of \<^verbatim>\<open>can_open_position\<close> that come before its daily-loss check, all passing: the
  breaker is not latched, the book is below its cap, the broker supplies account and symbol
  information, and the position value is within its limit. \<open>reported_balance\<close> is the balance
  the broker reports at that call.
\<close>

definition reported_balance :: "'b Broker \<Rightarrow> RiskManager \<times> 'b \<Rightarrow> real" where
  "reported_balance broker st = dict_get (the_dict (fst (get_account_info broker (snd st)))) ''balance'' 0"

definition reaches_loss_check :: "'b Broker \<Rightarrow> string \<Rightarrow> real \<Rightarrow> RiskManager \<times> 'b \<Rightarrow> bool" where
  "reaches_loss_check broker smb vol st =
     (let self = fst st;
          (account_info, b1) = get_account_info broker (snd st);
          (symbol_info, b2) = get_symbol_info broker b1 smb
      in \<not> max_daily_loss_reached self
         \<and> int (length (positions self)) < max_open_positions (config self)
         \<and> truthy account_info \<and> truthy symbol_info
         \<and> vol * dict_get (the_dict symbol_info) ''ask'' 0
             \<le> dict_get (the_dict account_info) ''balance'' 0 * max_position_size (config self))"

text \<open>The demo manager with an empty book after a day's loss of 500, and the demo manager
  (book at its cap) after a day's profit of 600; the loss limit is 5 percent of 10000.\<close>

definition loss_manager :: RiskManager where
  "loss_manager = demo_manager\<lparr>positions := [], daily_pnl := - 500\<rparr>"

definition profit_manager :: RiskManager where
  "profit_manager = demo_manager\<lparr>daily_pnl := 600\<rparr>"

definition profit_manager_empty :: RiskManager where
  "profit_manager_empty = demo_manager\<lparr>positions := [], daily_pnl := 600\<rparr>"

text \<open>
  Rules and tracked positions for the profit-taking examples: a rule taking half of every
  position with at least 10 pips every 15 minutes, a rule taking three quarters, the rule with the
  zero interval that the repository's test expects to be rejected, and a book in which ticket 2
  was tracked before ticket 1, both with 20 pips.
\<close>

definition quick_rule :: ProfitTakingRule where
  "quick_rule =
     \<lparr>name = ''Quick'', enabled = True, time_interval_minutes = 15, min_profit_pips = 10,
      profit_percentage = 1 / 2, max_trades_per_interval = 3, session_filter = None,
      symbol_filter = None, last_execution = None\<rparr>"

definition end_rule :: ProfitTakingRule where
  "end_rule =
     \<lparr>name = ''Session End Profit'', enabled = True, time_interval_minutes = 240,
      min_profit_pips = 30, profit_percentage = 3 / 4, max_trades_per_interval = 10,
      session_filter = None, symbol_filter = None, last_execution = None\<rparr>"

definition invalid_rule :: ProfitTakingRule where
  "invalid_rule =
     \<lparr>name = ''Invalid Rule'', enabled = True, time_interval_minutes = 0, min_profit_pips = 15,
      profit_percentage = 1 / 2, max_trades_per_interval = 2, session_filter = None,
      symbol_filter = None, last_execution = None\<rparr>"

definition pos_two :: ActivePosition where
  "pos_two =
     \<lparr>ticket = 2, symbol = ''EURUSD'', order_type = ''BUY'', volume = 1, open_price = 1,
      open_time = 0, current_profit = 20, current_profit_pips = 20, session = LONDON,
      strategy = ''breakout''\<rparr>"

definition pos_one :: ActivePosition where
  "pos_one =
     \<lparr>ticket = 1, symbol = ''GBPUSD'', order_type = ''SELL'', volume = 1, open_price = 1,
      open_time = 0, current_profit = 20, current_profit_pips = 20, session = LONDON,
      strategy = ''breakout''\<rparr>"

definition pos_three :: ActivePosition where
  "pos_three =
     \<lparr>ticket = 3, symbol = ''USDJPY'', order_type = ''BUY'', volume = 1 / 64, open_price = 1,
      open_time = 0, current_profit = 30, current_profit_pips = 30, session = ASIAN,
      strategy = ''breakout''\<rparr>"

definition pos_four :: ActivePosition where
  "pos_four =
     \<lparr>ticket = 4, symbol = ''XAUUSD'', order_type = ''BUY'', volume = 1 / 4, open_price = 1,
      open_time = 0, current_profit = 40, current_profit_pips = 40, session = NEW_YORK,
      strategy = ''breakout''\<rparr>"

text \<open>Two positions at the threshold: the volumes are the floats \<^verbatim>\<open>0.04\<close> and \<^verbatim>\<open>0.02\<close>.\<close>

definition pos_five :: ActivePosition where
  "pos_five =
     \<lparr>ticket = 5, symbol = ''EURUSD'', order_type = ''BUY'', volume = double_round (4 / 100),
      open_price = 1, open_time = 0, current_profit = 40, current_profit_pips = 40,
      session = LONDON, strategy = ''breakout''\<rparr>"

definition pos_six :: ActivePosition where
  "pos_six =
     \<lparr>ticket = 6, symbol = ''EURUSD'', order_type = ''BUY'', volume = double_round (2 / 100),
      open_price = 1, open_time = 0, current_profit = 40, current_profit_pips = 40,
      session = LONDON, strategy = ''breakout''\<rparr>"

definition demo_book :: "(int \<times> ActivePosition) list" where
  "demo_book = [(2, pos_two), (1, pos_one), (3, pos_three)]"

definition demo_monitor :: ProfitMonitor where
  "demo_monitor = \<lparr>profit_taking_rules = [quick_rule], active_positions = demo_book\<rparr>"

section \<open>Verified properties\<close>

subsection \<open>Session windows\<close>

lemma radix_less:
  fixes a1 a2 b1 b2 r :: nat
  assumes "a2 < r" "b2 < r"
  shows "(a1 < b1 \<or> (a1 = b1 \<and> a2 < b2)) \<longleftrightarrow> a1 * r + a2 < b1 * r + b2"
proof -
  have up: "x * r + y < z * r + w" if "x < z" "y < r" for x y z w :: nat
  proof -
    have "x * r + y < x * r + r" using that by simp
    also have "\<dots> = Suc x * r" by simp
    also have "\<dots> \<le> z * r" using that by (intro mult_le_mono1) simp
    finally show ?thesis by simp
  qed
  show ?thesis
  proof (cases a1 b1 rule: linorder_cases)
    case less
    then show ?thesis using up [of a1 b1 a2 b2] assms by simp
  next
    case equal
    then show ?thesis by simp
  next
    case greater
    then have "b1 * r + b2 < a1 * r + a2" using up [of b1 a1 b2 a2] assms by simp
    with greater show ?thesis by simp
  qed
qed

lemma tuple_lt_micros:
  assumes "valid_time a" "valid_time b"
  shows "tuple_lt (time_tuple a) (time_tuple b) \<longleftrightarrow> micros_of_day a < micros_of_day b"
proof -
  let ?m = "\<lambda>t. hour t * 60 + minute t"
  let ?s = "\<lambda>t. ?m t * 60 + second t"
  have ha: "minute a < 60" "second a < 60" "microsecond a < 1000000"
    and hb: "minute b < 60" "second b < 60" "microsecond b < 1000000"
    using assms unfolding valid_time_def by blast+
  have 1: "(hour a < hour b \<or> (hour a = hour b \<and> minute a < minute b)) \<longleftrightarrow> ?m a < ?m b"
    by (rule radix_less [OF ha(1) hb(1)])
  have 2: "(?m a < ?m b \<or> (?m a = ?m b \<and> second a < second b)) \<longleftrightarrow> ?s a < ?s b"
    by (rule radix_less [OF ha(2) hb(2)])
  have 3: "(?s a < ?s b \<or> (?s a = ?s b \<and> microsecond a < microsecond b))
             \<longleftrightarrow> micros_of_day a < micros_of_day b"
    unfolding micros_of_day_def by (rule radix_less [OF ha(3) hb(3)])
  have e1: "?m a = ?m b \<longleftrightarrow> hour a = hour b \<and> minute a = minute b"
    using 1 radix_less [OF hb(1) ha(1), of "hour b" "hour a"] by (metis nat_neq_iff)
  have e2: "?s a = ?s b \<longleftrightarrow> ?m a = ?m b \<and> second a = second b"
    using 2 radix_less [OF hb(2) ha(2), of "?m b" "?m a"] by (metis nat_neq_iff)
  show ?thesis
    unfolding time_tuple_def tuple_lt.simps 3 [symmetric] 2 [symmetric] e2 1 [symmetric] e1
    by blast
qed

lemma time_tuple_eq_micros:
  assumes "valid_time a" "valid_time b"
  shows "time_tuple a = time_tuple b \<longleftrightarrow> micros_of_day a = micros_of_day b"
proof
  assume "time_tuple a = time_tuple b"
  then show "micros_of_day a = micros_of_day b"
    by (simp add: time_tuple_def micros_of_day_def)
next
  assume eq: "micros_of_day a = micros_of_day b"
  have "\<not> tuple_lt (time_tuple a) (time_tuple b)" "\<not> tuple_lt (time_tuple b) (time_tuple a)"
    using eq tuple_lt_micros [OF assms] tuple_lt_micros [OF assms(2) assms(1)] by simp_all
  then show "time_tuple a = time_tuple b"
    unfolding time_tuple_def tuple_lt.simps prod.inject by (meson nat_neq_iff)
qed

lemma time_cmp_micros:
  assumes "valid_time a" "valid_time b"
  shows "time_cmp a b = (if micros_of_day a = micros_of_day b then 0
                         else if micros_of_day b < micros_of_day a then 1 else - 1)"
  unfolding time_cmp_def
  by (simp only: tuple_lt_micros [OF assms(2) assms(1)] time_tuple_eq_micros [OF assms])

lemma time_le_micros: "valid_time a \<Longrightarrow> valid_time b \<Longrightarrow> time_le a b \<longleftrightarrow> micros_of_day a \<le> micros_of_day b"
  by (auto simp: time_le_def time_cmp_micros)

lemma time_ge_micros: "valid_time a \<Longrightarrow> valid_time b \<Longrightarrow> time_ge a b \<longleftrightarrow> micros_of_day b \<le> micros_of_day a"
  by (auto simp: time_ge_def time_cmp_micros)

lemma time_gt_micros: "valid_time a \<Longrightarrow> valid_time b \<Longrightarrow> time_gt a b \<longleftrightarrow> micros_of_day b < micros_of_day a"
  by (auto simp: time_gt_def time_cmp_micros)

text \<open>
  C2. For a session whose start is not after its end, \<^verbatim>\<open>is_session_active\<close> holds exactly when
  the local time of day lies between start and end, both included; for a session whose start
  is after its end, exactly when the local time of day is at or after the start, or at or
  before the end. Times of day are compared as offsets from midnight.
\<close>

theorem is_session_active_window:
  assumes "valid_time (start_time s)" and "valid_time (end_time s)"
    and "valid_time (timezone s (case ct of None \<Rightarrow> now | Some t \<Rightarrow> t))"
  shows "is_session_active s now ct =
           (let start = micros_of_day (start_time s);
                finish = micros_of_day (end_time s);
                local = micros_of_day (timezone s (case ct of None \<Rightarrow> now | Some t \<Rightarrow> t))
            in if start \<le> finish then start \<le> local \<and> local \<le> finish
               else local \<ge> start \<or> local \<le> finish)"
  using assms
  by (auto simp: is_session_active_def Let_def time_le_micros time_ge_micros time_gt_micros)


theorem is_session_active_window_witness:
  "valid_time (start_time night_session) \<and> valid_time (end_time night_session)
   \<and> valid_time (timezone night_session 0)
   \<and> is_session_active night_session 0 None
   \<and> \<not> is_session_active night_session 0 (Some 1)"
  using is_session_active_window [where s = night_session and ct = None and now = 0]
        is_session_active_window [where s = night_session and ct = "Some 1" and now = 0]
  by (simp add: night_session_def valid_time_def micros_of_day_def)


subsection \<open>Trailing stops\<close>

lemma trail_position_unset: "sl p = None \<Longrightarrow> trail_position cfg p = (p, False)"
  by (simp add: trail_position_def)

lemma trail_position_type: "Position.order_type (fst (trail_position cfg p)) = Position.order_type p"
  by (simp add: trail_position_def Let_def split: option.splits)

lemma trail_position_buy:
  assumes "sl p = Some s" and "Position.order_type p = BUY"
  shows "\<exists>s'. sl (fst (trail_position cfg p)) = Some s' \<and> s \<le> s'
              \<and> (snd (trail_position cfg p) \<longrightarrow> s < s')"
  using assms by (simp add: trail_position_def Let_def)

lemma trail_position_sell:
  assumes "sl p = Some s" and "Position.order_type p \<noteq> BUY"
  shows "\<exists>s'. sl (fst (trail_position cfg p)) = Some s' \<and> s' \<le> s
              \<and> (snd (trail_position cfg p) \<longrightarrow> s' < s)"
  using assms by (simp add: trail_position_def Let_def)

lemma trailing_loop_keys: "map fst (snd (trailing_loop cfg ps)) = map fst ps"
  by (induction ps) (auto split: prod.splits)

lemma trailing_loop_tickets: "set (fst (trailing_loop cfg ps)) \<subseteq> fst ` set ps"
  by (induction ps) (auto split: prod.splits if_splits)

lemma trailing_loop_entry:
  assumes "distinct (map fst ps)" and "map_of ps t = Some p"
  shows "map_of (snd (trailing_loop cfg ps)) t = Some (fst (trail_position cfg p))
         \<and> (t \<in> set (fst (trailing_loop cfg ps)) \<longleftrightarrow> snd (trail_position cfg p))"
  using assms
proof (induction ps)
  case Nil
  then show ?case by simp
next
  case (Cons kv ps)
  obtain k q where kv: "kv = (k, q)" by (cases kv)
  show ?case
  proof (cases "k = t")
    case True
    with Cons.prems kv have "q = p" and "t \<notin> fst ` set ps" by auto
    with True kv trailing_loop_tickets [of cfg ps] show ?thesis
      by (auto split: prod.splits)
  next
    case False
    with Cons kv show ?thesis by (auto split: prod.splits)
  qed
qed

lemma update_positions_loop_keys: "map fst (fst (update_positions_loop br ps b)) = map fst ps"
proof (induction ps arbitrary: b)
  case Nil
  then show ?case by simp
next
  case (Cons kv ps)
  obtain k q where kv: "kv = (k, q)" by (cases kv)
  obtain cp b1 where g: "get_current_price br b (Position.symbol q) = (cp, b1)" by fastforce
  obtain rest b2 where r: "update_positions_loop br ps b1 = (rest, b2)" by fastforce
  from Cons.IH [of b1] r have "map fst rest = map fst ps" by simp
  with kv g r show ?case by simp
qed

lemma update_price_frame:
  "sl (update_price p c) = sl p" "Position.order_type (update_price p c) = Position.order_type p"
  by (simp_all add: update_price_def)

lemma update_positions_loop_entry:
  assumes "map_of ps t = Some p"
  shows "\<exists>p'. map_of (fst (update_positions_loop br ps b)) t = Some p' \<and> sl p' = sl p
              \<and> Position.order_type p' = Position.order_type p"
  using assms
proof (induction ps arbitrary: b)
  case Nil
  then show ?case by simp
next
  case (Cons kv ps)
  obtain k q where kv: "kv = (k, q)" by (cases kv)
  show ?case
  proof (cases "k = t")
    case True
    with Cons.prems kv show ?thesis
      by (auto simp: update_price_frame split: prod.splits)
  next
    case False
    with Cons.prems kv have "map_of ps t = Some p" by simp
    from Cons.IH [OF this] False kv show ?thesis
      by (auto split: prod.splits) (metis fst_conv)
  qed
qed

lemma apply_trailing_stop_keys:
  "map fst (positions (snd (apply_trailing_stop rm))) = map fst (positions rm)"
  using trailing_loop_keys [of "config rm" "positions rm"]
  by (auto simp: apply_trailing_stop_def split: prod.splits)

lemma update_positions_keys:
  "map fst (positions (fst (update_positions br (rm, b)))) = map fst (positions rm)"
  using update_positions_loop_keys [of br "positions rm" b]
  by (auto simp: update_positions_def split: prod.splits)

lemma update_positions_entry:
  assumes "map_of (positions rm) t = Some p"
  shows "\<exists>p'. map_of (positions (fst (update_positions br (rm, b)))) t = Some p'
              \<and> sl p' = sl p \<and> Position.order_type p' = Position.order_type p"
  using update_positions_loop_entry [OF assms, of br b]
  by (auto simp: update_positions_def split: prod.splits)

lemma apply_trailing_stop_buy:
  assumes "distinct (map fst (positions rm))" and "map_of (positions rm) t = Some p"
    and "sl p = Some s" and "Position.order_type p = BUY"
  shows "\<exists>p' s'. map_of (positions (snd (apply_trailing_stop rm))) t = Some p' \<and> sl p' = Some s'
           \<and> Position.order_type p' = BUY \<and> s \<le> s'
           \<and> (t \<in> set (fst (apply_trailing_stop rm)) \<longrightarrow> s < s')"
proof (cases "trailing_stop (config rm)")
  case False
  with assms show ?thesis by (simp add: apply_trailing_stop_def)
next
  case True
  from trail_position_buy [OF assms(3,4), of "config rm"]
  obtain s' where s': "sl (fst (trail_position (config rm) p)) = Some s'" "s \<le> s'"
    "snd (trail_position (config rm) p) \<longrightarrow> s < s'" by blast
  from trailing_loop_entry [OF assms(1,2), of "config rm"] True s' assms(4)
    trail_position_type [of "config rm" p]
  show ?thesis
    by (auto simp: apply_trailing_stop_def split: prod.splits)
qed

lemma apply_trailing_stop_sell:
  assumes "distinct (map fst (positions rm))" and "map_of (positions rm) t = Some p"
    and "sl p = Some s" and "Position.order_type p \<noteq> BUY"
  shows "\<exists>p' s'. map_of (positions (snd (apply_trailing_stop rm))) t = Some p' \<and> sl p' = Some s'
           \<and> Position.order_type p' \<noteq> BUY \<and> s' \<le> s
           \<and> (t \<in> set (fst (apply_trailing_stop rm)) \<longrightarrow> s' < s)"
proof (cases "trailing_stop (config rm)")
  case False
  with assms show ?thesis by (simp add: apply_trailing_stop_def)
next
  case True
  from trail_position_sell [OF assms(3,4), of "config rm"]
  obtain s' where s': "sl (fst (trail_position (config rm) p)) = Some s'" "s' \<le> s"
    "snd (trail_position (config rm) p) \<longrightarrow> s' < s" by blast
  from trailing_loop_entry [OF assms(1,2), of "config rm"] True s' assms(4)
    trail_position_type [of "config rm" p]
  show ?thesis
    by (auto simp: apply_trailing_stop_def split: prod.splits)
qed

lemma accepted_stops_Cons:
  "accepted_stops t ((tickets, rm) # run) =
     (if t \<in> set tickets then stop_of rm t else []) @ accepted_stops t run"
  by (simp add: accepted_stops_def)

lemma trailing_cycles_Suc:
  "trailing_cycles br (Suc n) (rm, b) =
     (fst (apply_trailing_stop (fst (update_positions br (rm, b)))),
      snd (apply_trailing_stop (fst (update_positions br (rm, b)))))
     # trailing_cycles br n (snd (apply_trailing_stop (fst (update_positions br (rm, b)))),
                             snd (update_positions br (rm, b)))"
  by (simp split: prod.splits)

lemma cycles_buy:
  assumes "distinct (map fst (positions rm))" and "map_of (positions rm) t = Some p"
    and "sl p = Some s0" and "Position.order_type p = BUY"
  shows "sorted_wrt (<) (s0 # accepted_stops t (trailing_cycles br n (rm, b)))"
  using assms
proof (induction n arbitrary: rm b p s0)
  case 0
  then show ?case by (simp add: accepted_stops_def)
next
  case (Suc n)
  let ?rm1 = "fst (update_positions br (rm, b))"
  let ?b1 = "snd (update_positions br (rm, b))"
  let ?tk = "fst (apply_trailing_stop ?rm1)"
  let ?rm2 = "snd (apply_trailing_stop ?rm1)"
  have d1: "distinct (map fst (positions ?rm1))"
    using Suc.prems(1) by (simp add: update_positions_keys)
  from update_positions_entry [OF Suc.prems(2), of br b] Suc.prems(3,4)
  obtain p1 where p1: "map_of (positions ?rm1) t = Some p1" "sl p1 = Some s0"
    "Position.order_type p1 = BUY" by auto
  from apply_trailing_stop_buy [OF d1 p1]
  obtain p2 s2 where p2: "map_of (positions ?rm2) t = Some p2" "sl p2 = Some s2"
    "Position.order_type p2 = BUY" "s0 \<le> s2" "t \<in> set ?tk \<longrightarrow> s0 < s2" by blast
  have d2: "distinct (map fst (positions ?rm2))"
    using d1 by (simp add: apply_trailing_stop_keys)
  have ih: "sorted_wrt (<) (s2 # accepted_stops t (trailing_cycles br n (?rm2, ?b1)))"
    by (rule Suc.IH [OF d2 p2(1,2,3)])
  have st: "stop_of ?rm2 t = [s2]" using p2 by (simp add: stop_of_def)
  show ?case
  proof (cases "t \<in> set ?tk")
    case True
    with p2 ih st show ?thesis
      unfolding trailing_cycles_Suc accepted_stops_Cons by auto
  next
    case False
    with p2 ih st show ?thesis
      unfolding trailing_cycles_Suc accepted_stops_Cons by auto
  qed
qed

lemma cycles_sell:
  assumes "distinct (map fst (positions rm))" and "map_of (positions rm) t = Some p"
    and "sl p = Some s0" and "Position.order_type p \<noteq> BUY"
  shows "sorted_wrt (\<lambda>x y. x > y) (s0 # accepted_stops t (trailing_cycles br n (rm, b)))"
  using assms
proof (induction n arbitrary: rm b p s0)
  case 0
  then show ?case by (simp add: accepted_stops_def)
next
  case (Suc n)
  let ?rm1 = "fst (update_positions br (rm, b))"
  let ?b1 = "snd (update_positions br (rm, b))"
  let ?tk = "fst (apply_trailing_stop ?rm1)"
  let ?rm2 = "snd (apply_trailing_stop ?rm1)"
  have d1: "distinct (map fst (positions ?rm1))"
    using Suc.prems(1) by (simp add: update_positions_keys)
  from update_positions_entry [OF Suc.prems(2), of br b] Suc.prems(3,4)
  obtain p1 where p1: "map_of (positions ?rm1) t = Some p1" "sl p1 = Some s0"
    "Position.order_type p1 \<noteq> BUY" by auto
  from apply_trailing_stop_sell [OF d1 p1]
  obtain p2 s2 where p2: "map_of (positions ?rm2) t = Some p2" "sl p2 = Some s2"
    "Position.order_type p2 \<noteq> BUY" "s2 \<le> s0" "t \<in> set ?tk \<longrightarrow> s2 < s0" by blast
  have d2: "distinct (map fst (positions ?rm2))"
    using d1 by (simp add: apply_trailing_stop_keys)
  have ih: "sorted_wrt (\<lambda>x y. x > y) (s2 # accepted_stops t (trailing_cycles br n (?rm2, ?b1)))"
    by (rule Suc.IH [OF d2 p2(1,2,3)])
  have st: "stop_of ?rm2 t = [s2]" using p2 by (simp add: stop_of_def)
  show ?case
  proof (cases "t \<in> set ?tk")
    case True
    with p2 ih st show ?thesis
      unfolding trailing_cycles_Suc accepted_stops_Cons by auto
  next
    case False
    with p2 ih st show ?thesis
      unfolding trailing_cycles_Suc accepted_stops_Cons by auto
  qed
qed

text \<open>
  C3. Over any run of risk cycles (prices refreshed from the broker, then
  \<^verbatim>\<open>apply_trailing_stop\<close>), the stops accepted for a position that starts with a stop \<open>s0\<close> form,
  after \<open>s0\<close>, a strictly increasing sequence when the position is a \<^verbatim>\<open>BUY\<close> and a strictly
  decreasing one otherwise: every accepted update strictly raises the stop of a long and strictly
  lowers the stop of a short, so the stop never loosens.
\<close>

theorem trailing_stop_never_loosens:
  assumes "distinct (map fst (positions rm))" and "map_of (positions rm) t = Some p"
    and "sl p = Some s0"
  shows "if Position.order_type p = BUY
         then sorted_wrt (<) (s0 # accepted_stops t (trailing_cycles broker n (rm, b)))
         else sorted_wrt (\<lambda>x y. x > y) (s0 # accepted_stops t (trailing_cycles broker n (rm, b)))"
proof (cases "Position.order_type p = BUY")
  case True
  from cycles_buy [OF assms True] True show ?thesis by simp
next
  case False
  from cycles_sell [OF assms False] False show ?thesis by simp
qed

theorem trailing_stop_never_loosens_witness:
  "distinct (map fst (positions demo_manager)) \<and> map_of (positions demo_manager) 1 = Some demo_long
   \<and> sl demo_long = Some (1095 / 1000)
   \<and> accepted_stops 1 (trailing_cycles demo_broker (Suc (Suc 0)) (demo_manager, 0))
       = [1098 / 1000, 1101 / 1000]
   \<and> sorted_wrt (<) [1095 / 1000, 1098 / 1000, 1101 / 1000 :: real]
   \<and> map_of (positions demo_manager) 3 = Some demo_short \<and> sl demo_short = Some (905 / 1000)
   \<and> accepted_stops 3 (trailing_cycles demo_broker (Suc (Suc 0)) (demo_manager, 0)) = [902 / 1000]
   \<and> sorted_wrt (\<lambda>x y. x > y) [905 / 1000, 902 / 1000 :: real]"
  using trailing_stop_never_loosens [of demo_manager 1 demo_long "1095 / 1000" demo_broker "Suc (Suc 0)" 0]
        trailing_stop_never_loosens [of demo_manager 3 demo_short "905 / 1000" demo_broker "Suc (Suc 0)" 0]
  by (simp add: demo_manager_def demo_config_def demo_long_def demo_unset_def demo_short_def
        demo_broker_def update_positions_def apply_trailing_stop_def trail_position_def
        update_price_def truthy_def the_dict_def dict_get_def Let_def accepted_stops_def stop_of_def)

text \<open>
  C10. A position whose stop-loss is \<^verbatim>\<open>None\<close> is skipped by \<^verbatim>\<open>apply_trailing_stop\<close>: its
  ticket is not in the returned list and the book holds the very same position afterwards.
\<close>

theorem apply_trailing_stop_skips_unset:
  assumes "distinct (map fst (positions rm))" and "map_of (positions rm) t = Some p"
    and "sl p = None"
  shows "t \<notin> set (fst (apply_trailing_stop rm))
         \<and> map_of (positions (snd (apply_trailing_stop rm))) t = Some p"
  using trailing_loop_entry [OF assms(1,2), of "config rm"] assms(2,3)
  by (auto simp: apply_trailing_stop_def trail_position_unset split: prod.splits)

theorem apply_trailing_stop_skips_unset_witness:
  "distinct (map fst (positions demo_manager)) \<and> map_of (positions demo_manager) 2 = Some demo_unset
   \<and> sl demo_unset = None
   \<and> fst (apply_trailing_stop demo_manager) = [1, 3]
   \<and> map_of (positions (snd (apply_trailing_stop demo_manager))) 2 = Some demo_unset"
  using apply_trailing_stop_skips_unset [of demo_manager 2 demo_unset]
  by (simp add: demo_manager_def demo_config_def demo_long_def demo_unset_def demo_short_def
        apply_trailing_stop_def trail_position_def Let_def)

subsection \<open>Admission and the daily-loss breaker\<close>

lemma can_open_position_latched:
  assumes "max_daily_loss_reached rm" and "d \<le> last_reset_date rm"
  shows "can_open_position br d smb vol slp (rm, b)
           = ((False, Reason ''Daily loss limit reached''), rm, b)"
  using assms by (simp add: can_open_position_def reset_daily_metrics_def)

lemma can_open_calls_latched:
  assumes "max_daily_loss_reached rm" and "\<forall>c\<in>set calls. fst c \<le> last_reset_date rm"
  shows "can_open_calls br calls (rm, b)
           = replicate (length calls) (False, Reason ''Daily loss limit reached'')"
  using assms
proof (induction calls arbitrary: b)
  case Nil
  then show ?case by simp
next
  case (Cons c calls)
  obtain d smb vol slp where c: "c = (d, smb, vol, slp)" by (cases c)
  with Cons.prems have "d \<le> last_reset_date rm" by simp
  from can_open_position_latched [OF Cons.prems(1) this, of br smb vol slp b]
    Cons.IH [of b] Cons.prems c
  show ?case by simp
qed

lemma can_open_position_breach:
  assumes "d \<le> last_reset_date rm" and "reaches_loss_check br smb vol (rm, b)"
    and "\<bar>daily_pnl rm\<bar> \<ge> reported_balance br (rm, b) * max_daily_loss (config rm)"
  shows "fst (can_open_position br d smb vol slp (rm, b))
           = (False, Reason ''Daily loss limit would be exceeded'')
         \<and> fst (snd (can_open_position br d smb vol slp (rm, b)))
           = rm\<lparr>max_daily_loss_reached := True\<rparr>"
proof -
  obtain ai b1 where ai: "get_account_info br b = (ai, b1)" by fastforce
  obtain si b2 where si: "get_symbol_info br b1 smb = (si, b2)" by fastforce
  from assms show ?thesis
    by (simp add: can_open_position_def reset_daily_metrics_def reaches_loss_check_def
        reported_balance_def Let_def ai si)
qed

lemma can_open_position_refuses:
  assumes "d \<le> last_reset_date rm"
    and "\<bar>daily_pnl rm\<bar> \<ge> reported_balance br (rm, b) * max_daily_loss (config rm)"
  shows "\<not> fst (fst (can_open_position br d smb vol slp (rm, b)))"
proof -
  obtain ai b1 where ai: "get_account_info br b = (ai, b1)" by fastforce
  obtain si b2 where si: "get_symbol_info br b1 smb = (si, b2)" by fastforce
  from assms show ?thesis
    by (simp add: can_open_position_def reset_daily_metrics_def
        reported_balance_def Let_def ai si)
qed

text \<open>
  C1 (amended). On one calendar day (no call reads a date after the last reset): once the breaker
  is latched, every call of \<^verbatim>\<open>can_open_position\<close> returns false with reason
  "Daily loss limit reached"; and a call that reaches the daily-loss check while the magnitude of
  the daily P&L is at least \<^verbatim>\<open>max_daily_loss\<close> times the reported balance returns false with
  reason "Daily loss limit would be exceeded" and latches the breaker, so that every later call
  of that day returns false with reason "Daily loss limit reached".
\<close>

theorem daily_loss_breaker_latch:
  assumes "\<forall>c\<in>set calls. fst c \<le> last_reset_date rm"
  shows "(max_daily_loss_reached rm \<longrightarrow>
            can_open_calls br calls (rm, b)
              = replicate (length calls) (False, Reason ''Daily loss limit reached''))
       \<and> (d \<le> last_reset_date rm \<and> reaches_loss_check br smb vol (rm, b)
            \<and> \<bar>daily_pnl rm\<bar> \<ge> reported_balance br (rm, b) * max_daily_loss (config rm) \<longrightarrow>
            can_open_calls br ((d, smb, vol, slp) # calls) (rm, b)
              = (False, Reason ''Daily loss limit would be exceeded'')
                # replicate (length calls) (False, Reason ''Daily loss limit reached''))"
proof (intro conjI impI)
  assume "max_daily_loss_reached rm"
  from can_open_calls_latched [OF this assms]
  show "can_open_calls br calls (rm, b)
          = replicate (length calls) (False, Reason ''Daily loss limit reached'')" .
next
  assume h: "d \<le> last_reset_date rm \<and> reaches_loss_check br smb vol (rm, b)
            \<and> \<bar>daily_pnl rm\<bar> \<ge> reported_balance br (rm, b) * max_daily_loss (config rm)"
  let ?r = "can_open_position br d smb vol slp (rm, b)"
  from h can_open_position_breach [of d rm br smb vol b slp]
  have r: "fst ?r = (False, Reason ''Daily loss limit would be exceeded'')"
    "fst (snd ?r) = rm\<lparr>max_daily_loss_reached := True\<rparr>" by simp_all
  have "can_open_calls br calls (rm\<lparr>max_daily_loss_reached := True\<rparr>, snd (snd ?r))
          = replicate (length calls) (False, Reason ''Daily loss limit reached'')"
    using assms by (intro can_open_calls_latched) simp_all
  with r show "can_open_calls br ((d, smb, vol, slp) # calls) (rm, b)
              = (False, Reason ''Daily loss limit would be exceeded'')
                # replicate (length calls) (False, Reason ''Daily loss limit reached'')"
    by (cases ?r) auto
qed

text \<open>With a loss of 500 against a limit of 500 and the breaker not yet latched, the call does
  not answer "Daily loss limit reached".\<close>

theorem daily_loss_breaker_latch_counterexample:
  "\<bar>daily_pnl loss_manager\<bar> \<ge> reported_balance demo_broker (loss_manager, 0) * max_daily_loss (config loss_manager)
   \<and> fst (can_open_position demo_broker 100 ''EURUSD'' (1 / 100) 50 (loss_manager, 0))
       = (False, Reason ''Daily loss limit would be exceeded'')
   \<and> fst (can_open_position demo_broker 100 ''EURUSD'' (1 / 100) 50 (loss_manager, 0))
       \<noteq> (False, Reason ''Daily loss limit reached'')"
  by (simp add: can_open_position_def reset_daily_metrics_def loss_manager_def demo_manager_def
      demo_config_def demo_broker_def reported_balance_def truthy_def the_dict_def dict_get_def)

theorem daily_loss_breaker_latch_witness:
  "(100::int) \<le> last_reset_date loss_manager \<and> (99::int) \<le> last_reset_date loss_manager
   \<and> reaches_loss_check demo_broker ''EURUSD'' (1 / 100) (loss_manager, 0)
   \<and> \<bar>daily_pnl loss_manager\<bar> \<ge> reported_balance demo_broker (loss_manager, 0) * max_daily_loss (config loss_manager)
   \<and> can_open_calls demo_broker
        [(100, ''EURUSD'', 1 / 100, 50), (100, ''GBPUSD'', 2 / 100, 40), (99, ''EURUSD'', 1 / 100, 50)]
        (loss_manager, 0)
       = [(False, Reason ''Daily loss limit would be exceeded''),
          (False, Reason ''Daily loss limit reached''), (False, Reason ''Daily loss limit reached'')]
   \<and> max_daily_loss_reached (loss_manager\<lparr>max_daily_loss_reached := True\<rparr>)
   \<and> can_open_calls demo_broker [(100, ''GBPUSD'', 2 / 100, 40), (99, ''EURUSD'', 1 / 100, 50)]
        (loss_manager\<lparr>max_daily_loss_reached := True\<rparr>, 0)
       = [(False, Reason ''Daily loss limit reached''), (False, Reason ''Daily loss limit reached'')]"
  using daily_loss_breaker_latch [of "[(100, ''GBPUSD'', 2 / 100, 40), (99, ''EURUSD'', 1 / 100, 50)]"
          loss_manager demo_broker 0 100 "''EURUSD''" "1 / 100" 50]
        daily_loss_breaker_latch [of "[(100, ''GBPUSD'', 2 / 100, 40), (99, ''EURUSD'', 1 / 100, 50)]"
          "loss_manager\<lparr>max_daily_loss_reached := True\<rparr>" demo_broker 0 100 "''EURUSD''" "1 / 100" 50]
  by (simp add: reaches_loss_check_def loss_manager_def demo_manager_def
      demo_config_def demo_broker_def reported_balance_def truthy_def the_dict_def dict_get_def)

text \<open>
  C9 (amended). When the day's realized P&L is a profit of at least \<^verbatim>\<open>max_daily_loss\<close> times the
  reported balance, \<^verbatim>\<open>can_open_position\<close> returns false; and when the call reaches the daily-loss
  check (breaker not latched, book below its cap, broker information available, position value
  within its limit) it answers "Daily loss limit would be exceeded" and latches the breaker,
  although nothing was lost.
\<close>

theorem profit_trips_breaker:
  assumes "d \<le> last_reset_date rm" and "daily_pnl rm > 0"
    and "daily_pnl rm \<ge> reported_balance br (rm, b) * max_daily_loss (config rm)"
  shows "\<not> fst (fst (can_open_position br d smb vol slp (rm, b)))
       \<and> (reaches_loss_check br smb vol (rm, b) \<longrightarrow>
            fst (can_open_position br d smb vol slp (rm, b))
              = (False, Reason ''Daily loss limit would be exceeded'')
            \<and> max_daily_loss_reached (fst (snd (can_open_position br d smb vol slp (rm, b)))))"
proof -
  from assms have a: "\<bar>daily_pnl rm\<bar> \<ge> reported_balance br (rm, b) * max_daily_loss (config rm)"
    by simp
  from can_open_position_refuses [OF assms(1) a] can_open_position_breach [OF assms(1) _ a]
  show ?thesis by simp
qed

text \<open>With the book at its cap, the same profit is refused by the position-count check and the
  breaker is not latched.\<close>

theorem profit_trips_breaker_counterexample:
  "daily_pnl profit_manager > 0
   \<and> \<bar>daily_pnl profit_manager\<bar> \<ge> reported_balance demo_broker (profit_manager, 0) * max_daily_loss (config profit_manager)
   \<and> fst (can_open_position demo_broker 100 ''EURUSD'' (1 / 100) 50 (profit_manager, 0))
       = (False, Reason ''Maximum open positions reached'')
   \<and> \<not> max_daily_loss_reached (fst (snd (can_open_position demo_broker 100 ''EURUSD'' (1 / 100) 50 (profit_manager, 0))))"
  by (simp add: can_open_position_def reset_daily_metrics_def profit_manager_def demo_manager_def
      demo_config_def demo_broker_def reported_balance_def truthy_def the_dict_def dict_get_def)

theorem profit_trips_breaker_witness:
  "(100::int) \<le> last_reset_date profit_manager_empty \<and> daily_pnl profit_manager_empty > 0
   \<and> daily_pnl profit_manager_empty
        \<ge> reported_balance demo_broker (profit_manager_empty, 0) * max_daily_loss (config profit_manager_empty)
   \<and> reaches_loss_check demo_broker ''EURUSD'' (1 / 100) (profit_manager_empty, 0)
   \<and> fst (can_open_position demo_broker 100 ''EURUSD'' (1 / 100) 50 (profit_manager_empty, 0))
              = (False, Reason ''Daily loss limit would be exceeded'')
   \<and> max_daily_loss_reached (fst (snd (can_open_position demo_broker 100 ''EURUSD'' (1 / 100) 50 (profit_manager_empty, 0))))"
  using profit_trips_breaker [of 100 profit_manager_empty demo_broker 0 "''EURUSD''" "1 / 100" 50]
  by (simp add: reaches_loss_check_def profit_manager_empty_def demo_manager_def
      demo_config_def demo_broker_def reported_balance_def truthy_def the_dict_def dict_get_def)


subsection \<open>Profit-taking rules\<close>

text \<open>
  C6. \<^verbatim>\<open>add_profit_taking_rule\<close> checks nothing: the rule with a zero interval, which the
  repository's \<^verbatim>\<open>test_rule_validation\<close> expects to be refused, ends up in the rule list.
\<close>

theorem add_profit_taking_rule_accepts_invalid:
  "time_interval_minutes invalid_rule = 0
   \<and> profit_taking_rules (add_profit_taking_rule invalid_rule demo_monitor) = [quick_rule, invalid_rule]"
  by (simp add: add_profit_taking_rule_def demo_monitor_def invalid_rule_def)

lemma sort_by_profit_sorted:
  "sorted_wrt (\<lambda>p q. current_profit_pips p \<ge> current_profit_pips q) (sort_by_profit xs)"
proof -
  have "sorted (map (\<lambda>p. - current_profit_pips p) (sort_by_profit xs))"
    unfolding sort_by_profit_def by (rule sorted_sort_key)
  then show ?thesis by (simp add: sorted_map)
qed

lemma sort_by_profit_stable:
  "filter (\<lambda>p. current_profit_pips p = k) (sort_by_profit xs)
     = filter (\<lambda>p. current_profit_pips p = k) xs"
  using sort_key_stable [of "\<lambda>p. - current_profit_pips p" "- k" xs]
  by (simp add: sort_by_profit_def)

text \<open>
  C5 (amended). The candidates of a rule are a function of the tracked positions and the rule's
  filters: the profitable positions that pass the filters, in order of profit in pips, highest
  first, positions of equal profit staying in the order in which they are tracked.
\<close>

theorem candidate_order:
  "sorted_wrt (\<lambda>p q. current_profit_pips p \<ge> current_profit_pips q)
      (sort_by_profit (get_matching_positions rule ps))
   \<and> (\<forall>k. filter (\<lambda>p. current_profit_pips p = k) (sort_by_profit (get_matching_positions rule ps))
            = filter (\<lambda>p. current_profit_pips p = k) (get_matching_positions rule ps))
   \<and> get_matching_positions rule ps
       = filter (\<lambda>p. (session_filter rule = None \<or> session_filter rule = Some (session p))
                    \<and> (symbol_filter rule = None \<or> symbol_filter rule = Some []
                         \<or> symbol_filter rule = Some (symbol p))
                    \<and> current_profit_pips p > 0) (map snd ps)"
proof -
  have "matches rule = (\<lambda>p. (session_filter rule = None \<or> session_filter rule = Some (session p))
                    \<and> (symbol_filter rule = None \<or> symbol_filter rule = Some []
                         \<or> symbol_filter rule = Some (symbol p))
                    \<and> current_profit_pips p > 0)"
    by (auto simp: matches_def fun_eq_iff)
  then show ?thesis
    by (simp add: sort_by_profit_sorted sort_by_profit_stable get_matching_positions_def)
qed

text \<open>Ticket 2 was tracked before ticket 1 and both have 20 pips: ticket 2 comes first.\<close>

theorem candidate_order_counterexample:
  "map ticket (sort_by_profit (get_matching_positions quick_rule demo_book)) = [3, 2, 1]
   \<and> current_profit_pips pos_two = current_profit_pips pos_one
   \<and> ticket pos_one < ticket pos_two"
  by (simp add: sort_by_profit_def get_matching_positions_def matches_def quick_rule_def
      demo_book_def pos_one_def pos_two_def pos_three_def)

theorem candidate_order_witness:
  "sort_by_profit (get_matching_positions quick_rule demo_book) = [pos_three, pos_two, pos_one]
   \<and> filter (\<lambda>p. current_profit_pips p = 20) (get_matching_positions quick_rule demo_book)
       = [pos_two, pos_one]"
  using candidate_order [of quick_rule demo_book]
  by (simp add: sort_by_profit_def get_matching_positions_def matches_def quick_rule_def
      demo_book_def pos_one_def pos_two_def pos_three_def)

lemma map_of_replace:
  "map_of (map (\<lambda>kv. if fst kv = t then (fst kv, v) else kv) ps) k
     = (if k = t then (case map_of ps t of None \<Rightarrow> None | Some _ \<Rightarrow> Some v) else map_of ps k)"
  by (induction ps) auto

lemma map_of_remove_active_position:
  "map_of (remove_active_position t ps) k = (if k = t then None else map_of ps k)"
  unfolding remove_active_position_def
  by (induction ps) auto

lemma find_exp_up: "a \<ge> 2 \<Longrightarrow> e < 1023 \<Longrightarrow> find_exp a e = find_exp (a / 2) (e + 1)"
  by (subst find_exp.simps) simp

lemma find_exp_down: "a < 1 \<Longrightarrow> e > - 1022 \<Longrightarrow> find_exp a e = find_exp (a * 2) (e - 1)"
  by (subst find_exp.simps) simp

lemma find_exp_stop: "1 \<le> a \<Longrightarrow> a < 2 \<Longrightarrow> find_exp a e = e"
  by (subst find_exp.simps) simp

lemmas double_eval =
  float_mul_def float_sub_def float_0_01_def double_round_def pow2_def round_half_even_def
  find_exp_up find_exp_down find_exp_stop

text \<open>The floats written \<^verbatim>\<open>0.01\<close>, \<^verbatim>\<open>0.02\<close>, \<^verbatim>\<open>0.04\<close> and \<^verbatim>\<open>0.1\<close>, and
  \<^verbatim>\<open>0.04 * 0.75\<close> and \<^verbatim>\<open>0.04 - 0.04 * 0.75\<close> as the interpreter computes them (the last
  prints as \<^verbatim>\<open>0.010000000000000002\<close>).\<close>

lemma double_round_values:
  "double_round (1 / 100) = 5764607523034235 / 576460752303423488"
  "double_round (2 / 100) = 5764607523034235 / 288230376151711744"
  "double_round (4 / 100) = 5764607523034235 / 144115188075855872"
  "double_round (1 / 10) = 3602879701896397 / 36028797018963968"
  "float_mul (double_round (4 / 100)) (3 / 4) = 1080863910568919 / 36028797018963968"
  "float_sub (double_round (4 / 100)) (float_mul (double_round (4 / 100)) (3 / 4))
     = 1441151880758559 / 144115188075855872"
  by (simp_all add: double_eval)

text \<open>
  C7 (amended). A successful partial close replaces the volume of the tracked position by the
  float difference of that volume and the closed volume, the closed volume being the float
  product of the volume and the rule's fraction; when the remaining volume is at most the float
  \<^verbatim>\<open>0.01\<close>, whatever the instrument, the position is removed from tracking, and otherwise it
  stays with the remaining volume. No other tracked position changes.
\<close>

theorem partial_close_volume:
  assumes "map_of ps (ticket p) = Some p"
    and "execute_profit_taking br p rule (ps, b) = (True, ps', b')"
  shows "(let close_volume = float_mul (volume p) (profit_percentage rule);
              remaining = float_sub (volume p) close_volume
          in if remaining \<le> float_0_01
             then map_of ps' (ticket p) = None
             else map_of ps' (ticket p) = Some (p\<lparr>volume := remaining\<rparr>))
         \<and> (\<forall>t. t \<noteq> ticket p \<longrightarrow> map_of ps' t = map_of ps t)"
proof -
  let ?cv = "float_mul (volume p) (profit_percentage rule)"
  obtain cur b1 where cur: "get_mid_price br b (symbol p) = (cur, b1)" by fastforce
  obtain cl b2 where cl: "close_order_partial br b1 (ticket p) ?cv = (cl, b2)"
    by fastforce
  from assms(2) have ps': "ps' =
      (let p' = p\<lparr>volume := float_sub (volume p) ?cv\<rparr>;
           qs = map (\<lambda>kv. if fst kv = ticket p then (fst kv, p') else kv) ps
       in if volume p' \<le> float_0_01 then remove_active_position (ticket p) qs else qs)"
    by (auto simp: execute_profit_taking_def Let_def cur cl
        split: call.splits option.splits bool.splits if_splits)
  show ?thesis
    using assms(1) unfolding ps'
    by (simp add: Let_def map_of_replace map_of_remove_active_position)
qed

text \<open>An instrument whose minimum lot is 0.1: after closing 0.1875 of 0.25 lots the remaining
  0.0625 is below the minimum lot and the position is still tracked.\<close>

theorem partial_close_volume_counterexample:
  "fst (execute_profit_taking demo_broker pos_four end_rule ([(4, pos_four)], 0))
   \<and> float_sub (volume pos_four) (float_mul (volume pos_four) (profit_percentage end_rule)) = 1 / 16
   \<and> dict_get (the_dict (fst (get_symbol_info demo_broker 0 (symbol pos_four)))) ''volume_min'' (1 / 100)
       = 1 / 10
   \<and> map_of (fst (snd (execute_profit_taking demo_broker pos_four end_rule ([(4, pos_four)], 0)))) 4
       = Some (pos_four\<lparr>volume := 1 / 16\<rparr>)"
  by (simp add: execute_profit_taking_def demo_broker_def pos_four_def end_rule_def
      the_dict_def dict_get_def remove_active_position_def double_eval)

text \<open>Half of one lot stays tracked, half of 1/64 lot is dropped; at the threshold, three
  quarters taken from \<^verbatim>\<open>0.04\<close> leave \<^verbatim>\<open>0.010000000000000002\<close>, which stays tracked, and half
  taken from \<^verbatim>\<open>0.02\<close> leaves the float \<^verbatim>\<open>0.01\<close>, which is dropped.\<close>

theorem partial_close_volume_witness:
  "map_of demo_book (ticket pos_two) = Some pos_two
   \<and> execute_profit_taking demo_broker pos_two quick_rule (demo_book, 0)
       = (True, [(2, pos_two\<lparr>volume := 1 / 2\<rparr>), (1, pos_one), (3, pos_three)], 0)
   \<and> map_of demo_book (ticket pos_three) = Some pos_three
   \<and> execute_profit_taking demo_broker pos_three quick_rule (demo_book, 0)
       = (True, [(2, pos_two), (1, pos_one)], 0)
   \<and> map_of [(5, pos_five)] (ticket pos_five) = Some pos_five
   \<and> execute_profit_taking demo_broker pos_five end_rule ([(5, pos_five)], 0)
       = (True, [(5, pos_five\<lparr>volume := 1441151880758559 / 144115188075855872\<rparr>)], 0)
   \<and> map_of [(6, pos_six)] (ticket pos_six) = Some pos_six
   \<and> execute_profit_taking demo_broker pos_six quick_rule ([(6, pos_six)], 0) = (True, [], 0)"
  using partial_close_volume [of demo_book pos_two demo_broker quick_rule 0
          "[(2, pos_two\<lparr>volume := 1 / 2\<rparr>), (1, pos_one), (3, pos_three)]" 0]
        partial_close_volume [of demo_book pos_three demo_broker quick_rule 0
          "[(2, pos_two), (1, pos_one)]" 0]
        partial_close_volume [of "[(5, pos_five)]" pos_five demo_broker end_rule 0
          "[(5, pos_five\<lparr>volume := 1441151880758559 / 144115188075855872\<rparr>)]" 0]
        partial_close_volume [of "[(6, pos_six)]" pos_six demo_broker quick_rule 0 "[]" 0]
  by (simp add: execute_profit_taking_def demo_broker_def demo_book_def pos_one_def pos_two_def
      pos_three_def pos_five_def pos_six_def quick_rule_def end_rule_def
      remove_active_position_def double_eval)

lemma take_loop_count:
  "take_loop br rule cands n st = (tickets, m, st') \<Longrightarrow> m = n + int (length tickets)"
proof (induction cands arbitrary: n st tickets m st')
  case Nil
  then show ?case by simp
next
  case (Cons p rest)
  show ?case
  proof (cases "n \<ge> max_trades_per_interval rule")
    case True
    with Cons.prems show ?thesis by simp
  next
    case cap: False
    show ?thesis
    proof (cases "current_profit_pips p \<ge> min_profit_pips rule")
      case False
      with cap Cons.prems have "take_loop br rule rest n st = (tickets, m, st')" by simp
      then show ?thesis by (rule Cons.IH)
    next
      case True
      obtain ok st1 where ex: "execute_profit_taking br p rule st = (ok, st1)" by (metis surj_pair)
      show ?thesis
      proof (cases ok)
        case False
        with cap True ex Cons.prems have "take_loop br rule rest n st1 = (tickets, m, st')" by simp
        then show ?thesis by (rule Cons.IH)
      next
        case ok: True
        obtain ts res where r: "take_loop br rule rest (n + 1) st1 = (ts, res)" by (metis surj_pair)
        with cap True ex ok Cons.prems have eq: "tickets = ticket p # ts" "res = (m, st')" by simp_all
        from r eq have "take_loop br rule rest (n + 1) st1 = (ts, m, st')" by simp
        from Cons.IH [OF this] eq show ?thesis by simp
      qed
    qed
  qed
qed

lemma check_rule_cases:
  assumes "check_rule br now rule st = (rule', tickets, st')"
  shows "if tickets \<noteq> [] then rule' = rule\<lparr>last_execution := Some now\<rparr> \<and> interval_elapsed now rule
         else rule' = rule"
proof (cases "enabled rule \<and> interval_elapsed now rule \<and> get_matching_positions rule (fst st) \<noteq> []")
  case False
  with assms show ?thesis by (auto simp: check_rule_def Let_def split: if_splits)
next
  case True
  obtain ts c st1 where t: "take_loop br rule (sort_by_profit (get_matching_positions rule (fst st))) 0 st
                             = (ts, c, st1)"
    by (metis prod_cases3)
  from take_loop_count [OF t] have c: "c > 0 \<longleftrightarrow> ts \<noteq> []" by auto
  from assms True t c show ?thesis
    by (auto simp: check_rule_def Let_def split: if_splits)
qed

lemma interval_elapsed_iff:
  "interval_elapsed now rule \<longleftrightarrow>
     (case last_execution rule of None \<Rightarrow> True
      | Some l \<Rightarrow> now - l \<ge> time_interval_minutes rule * 60 * 1000000)"
proof (cases "last_execution rule")
  case None
  then show ?thesis by (simp add: interval_elapsed_def)
next
  case (Some l)
  have "real_of_int (time_interval_minutes rule * 60) \<le> real_of_int (now - l) / 1000000
          \<longleftrightarrow> real_of_int (time_interval_minutes rule * 60 * 1000000) \<le> real_of_int (now - l)"
    by (simp add: field_simps)
  also have "\<dots> \<longleftrightarrow> time_interval_minutes rule * 60 * 1000000 \<le> now - l"
    by (rule of_int_le_iff)
  finally show ?thesis using Some
    by (simp add: interval_elapsed_def total_seconds_def not_less)
qed

lemma interval_elapsed_later:
  "interval_elapsed now rule \<Longrightarrow> now \<le> later \<Longrightarrow> interval_elapsed later rule"
  unfolding interval_elapsed_iff by (auto split: option.splits)

text \<open>\<^verbatim>\<open>check_profit_taking\<close> runs the loop body once for every rule of the list, in order, each on
  the book and the broker as the rules before it left them.\<close>

lemma check_rules_append:
  "check_rules br now (pre @ rule # post) st =
     (let (pre', ts1, st1) = check_rules br now pre st;
          (rule', ts2, st2) = check_rule br now rule st1;
          (post', ts3, st3) = check_rules br now post st2
      in (pre' @ rule' # post', ts1 @ ts2 @ ts3, st3))"
proof (induction pre arbitrary: st)
  case Nil
  show ?case by (simp split: prod.splits)
next
  case (Cons r pre)
  obtain r' ts st1 where r: "check_rule br now r st = (r', ts, st1)" by (metis prod_cases3)
  show ?case
    using Cons.IH [of st1] by (simp add: r split: prod.splits)
qed

text \<open>
  C8. For an enabled rule whose interval has elapsed, one evaluation sets \<^verbatim>\<open>last_execution\<close> to
  the time of the tick when it closed at least one position and changes nothing else in the
  rule; when it closed none the rule is unchanged, hence still enabled and eligible at every
  later time.
\<close>

theorem last_execution_update:
  assumes "enabled rule" and "interval_elapsed now rule"
    and "check_rule br now rule st = (rule', tickets, st')"
  shows "(if tickets \<noteq> [] then rule' = rule\<lparr>last_execution := Some now\<rparr> else rule' = rule)
         \<and> (tickets = [] \<longrightarrow> enabled rule' \<and> (\<forall>later. now \<le> later \<longrightarrow> interval_elapsed later rule'))"
  using check_rule_cases [OF assms(3)] assms(1,2) interval_elapsed_later [of now rule]
  by (auto split: if_splits)

theorem last_execution_update_witness:
  "enabled quick_rule \<and> interval_elapsed 0 quick_rule
   \<and> check_rule demo_broker 0 quick_rule (demo_book, 0)
       = (quick_rule\<lparr>last_execution := Some 0\<rparr>, [3, 2, 1],
          [(2, pos_two\<lparr>volume := 1 / 2\<rparr>), (1, pos_one\<lparr>volume := 1 / 2\<rparr>)], 0)
   \<and> enabled end_rule \<and> interval_elapsed 0 end_rule
   \<and> check_rule demo_broker 0 (end_rule\<lparr>min_profit_pips := 50\<rparr>) (demo_book, 0)
       = (end_rule\<lparr>min_profit_pips := 50\<rparr>, [], demo_book, 0)"
  using last_execution_update [of quick_rule 0 demo_broker "(demo_book, 0)"
          "quick_rule\<lparr>last_execution := Some 0\<rparr>" "[3, 2, 1]"
          "([(2, pos_two\<lparr>volume := 1 / 2\<rparr>), (1, pos_one\<lparr>volume := 1 / 2\<rparr>)], 0)"]
        last_execution_update [of "end_rule\<lparr>min_profit_pips := 50\<rparr>" 0 demo_broker "(demo_book, 0)"
          "end_rule\<lparr>min_profit_pips := 50\<rparr>" "[]" "(demo_book, 0)"]
  by (simp add: check_rule_def interval_elapsed_def sort_by_profit_def get_matching_positions_def
      matches_def execute_profit_taking_def demo_broker_def demo_book_def pos_one_def pos_two_def
      pos_three_def quick_rule_def end_rule_def remove_active_position_def double_eval Let_def)

lemma check_rule_interval:
  assumes "check_rule br now rule st = (rule', tickets, st')"
  shows "time_interval_minutes rule' = time_interval_minutes rule"
  using check_rule_cases [OF assms] by (auto split: if_splits)

lemma rule_firings_Cons:
  "rule_firings br rule ((t, st) # ticks) =
     (if fst (snd (check_rule br t rule st)) \<noteq> [] then [t] else [])
     @ rule_firings br (fst (check_rule br t rule st)) ticks"
  by (simp split: prod.splits)

lemma firings_gapped:
  assumes "0 \<le> time_interval_minutes rule"
  shows "sorted_wrt (\<lambda>a b. b - a \<ge> time_interval_minutes rule * 60 * 1000000) (rule_firings br rule ticks)
         \<and> (\<forall>l. last_execution rule = Some l \<longrightarrow>
               (\<forall>f\<in>set (rule_firings br rule ticks). f - l \<ge> time_interval_minutes rule * 60 * 1000000))"
  using assms
proof (induction ticks arbitrary: rule)
  case Nil
  then show ?case by simp
next
  case (Cons tick ticks)
  obtain t st where tick: "tick = (t, st)" by (cases tick)
  let ?I = "time_interval_minutes rule * 60 * 1000000"
  let ?r = "fst (check_rule br t rule st)"
  let ?ts = "fst (snd (check_rule br t rule st))"
  have cr: "check_rule br t rule st = (?r, ?ts, snd (snd (check_rule br t rule st)))" by simp
  have int: "time_interval_minutes ?r = time_interval_minutes rule"
    by (rule check_rule_interval [OF cr])
  have I0: "0 \<le> ?I" using Cons.prems by simp
  from Cons.IH [of ?r] Cons.prems int
  have ih: "sorted_wrt (\<lambda>a b. b - a \<ge> ?I) (rule_firings br ?r ticks)"
    "\<And>l. last_execution ?r = Some l \<Longrightarrow> \<forall>f\<in>set (rule_firings br ?r ticks). f - l \<ge> ?I"
    by simp_all
  show ?case
  proof (cases "?ts = []")
    case True
    with check_rule_cases [OF cr] have same: "?r = rule" by simp
    have "rule_firings br rule (tick # ticks) = rule_firings br ?r ticks"
      unfolding tick rule_firings_Cons using True by simp
    with ih same show ?thesis by simp
  next
    case False
    with check_rule_cases [OF cr]
    have r: "?r = rule\<lparr>last_execution := Some t\<rparr>" and el: "interval_elapsed t rule" by simp_all
    have "last_execution ?r = Some t" by (simp add: r)
    from ih(2) [OF this] have after: "\<forall>f\<in>set (rule_firings br ?r ticks). f - t \<ge> ?I" .
    have first: "\<forall>l. last_execution rule = Some l \<longrightarrow> t - l \<ge> ?I"
      using el unfolding interval_elapsed_iff by (auto split: option.splits)
    have rest: "\<forall>l. last_execution rule = Some l \<longrightarrow> (\<forall>f\<in>set (rule_firings br ?r ticks). f - l \<ge> ?I)"
    proof (intro allI impI ballI)
      fix l f assume "last_execution rule = Some l" and "f \<in> set (rule_firings br ?r ticks)"
      with first after have "t - l \<ge> ?I" "f - t \<ge> ?I" by auto
      with I0 show "f - l \<ge> ?I" by linarith
    qed
    have "rule_firings br rule (tick # ticks) = t # rule_firings br ?r ticks"
      unfolding tick rule_firings_Cons using False by simp
    with ih(1) after first rest show ?thesis by simp
  qed
qed

lemma gapped_pairs:
  fixes fs :: "int list"
  assumes "sorted_wrt (\<lambda>a b. b - a \<ge> I) fs" and "0 \<le> I"
    and "t1 \<in> set fs" and "t2 \<in> set fs" and "t1 < t2"
  shows "t2 - t1 \<ge> I"
proof -
  from assms(3,4) obtain i j where ij: "i < length fs" "fs ! i = t1" "j < length fs" "fs ! j = t2"
    by (auto simp: in_set_conv_nth)
  with assms(5) have "i \<noteq> j" by auto
  then consider "i < j" | "j < i" by linarith
  then show ?thesis
  proof cases
    case 1
    with assms(1) ij show ?thesis by (auto simp: sorted_wrt_iff_nth_less)
  next
    case 2
    with assms(1) ij have "t1 - t2 \<ge> I" by (auto simp: sorted_wrt_iff_nth_less)
    with assms(2,5) show ?thesis by linarith
  qed
qed

text \<open>
  C4. Over the life of a rule, whatever the position book and the broker are at each tick, any
  two ticks at which the rule closed a position, at times \<open>t1 < t2\<close>, are at least the rule's
  interval apart; and a rule that has never fired passes the interval test at any time.
\<close>

theorem firings_respect_interval:
  "(\<forall>t1\<in>set (rule_firings br rule ticks). \<forall>t2\<in>set (rule_firings br rule ticks).
       t1 < t2 \<longrightarrow> total_seconds (t2 - t1) \<ge> real_of_int (time_interval_minutes rule * 60))
   \<and> (last_execution rule = None \<longrightarrow> interval_elapsed now rule)"
proof (intro conjI ballI impI)
  fix t1 t2
  assume h: "t1 \<in> set (rule_firings br rule ticks)" "t2 \<in> set (rule_firings br rule ticks)" "t1 < t2"
  have "t2 - t1 \<ge> time_interval_minutes rule * 60 * 1000000"
  proof (cases "0 \<le> time_interval_minutes rule")
    case True
    from firings_gapped [OF True, of br ticks] True h show ?thesis
      by (intro gapped_pairs [of _ "rule_firings br rule ticks"]) simp_all
  next
    case False
    then have "time_interval_minutes rule * 60 * 1000000 < 0" by simp
    with h(3) show ?thesis by linarith
  qed
  then have "real_of_int (time_interval_minutes rule * 60 * 1000000) \<le> real_of_int (t2 - t1)"
    by (simp only: of_int_le_iff)
  then show "total_seconds (t2 - t1) \<ge> real_of_int (time_interval_minutes rule * 60)"
    by (simp add: total_seconds_def field_simps)
next
  assume "last_execution rule = None"
  then show "interval_elapsed now rule" by (simp add: interval_elapsed_def)
qed

theorem firings_respect_interval_witness:
  "rule_firings demo_broker quick_rule
      [(0, demo_book, 0), (600000000, demo_book, 0), (900000000, demo_book, 0)] = [0, 900000000]
   \<and> total_seconds (900000000 - 0) \<ge> real_of_int (time_interval_minutes quick_rule * 60)
   \<and> interval_elapsed 0 quick_rule"
  using firings_respect_interval [of demo_broker quick_rule
          "[(0, demo_book, 0), (600000000, demo_book, 0), (900000000, demo_book, 0)]" 0]
  by (simp add: check_rule_def interval_elapsed_def total_seconds_def sort_by_profit_def
      get_matching_positions_def matches_def execute_profit_taking_def demo_broker_def
      demo_book_def pos_one_def pos_two_def pos_three_def quick_rule_def
      remove_active_position_def double_eval Let_def)


end
